theory Spec2Isabelle
  imports Main "HOL-Library.AList"
begin

section \<open>Decimal text of integers\<close>

text \<open>
  The store keeps every value as text (the client is opened with
  \<^verbatim>\<open>decode_responses=True\<close>). An integer handed to the client is written as
  its decimal text, as Python's \<^verbatim>\<open>str\<close> does; the handlers read it back with
  Python's \<^verbatim>\<open>int\<close>, which raises \<^verbatim>\<open>ValueError\<close> on text that is no numeral.
\<close>

definition digit_char :: "nat \<Rightarrow> char" where
  "digit_char d = ''0123456789'' ! (d mod 10)"

definition digit_of :: "char \<Rightarrow> nat option" where
  "digit_of c =
     (let k = of_char c; z = of_char CHR ''0''
      in if z \<le> k \<and> k < z + 10 then Some (k - z) else None)"

fun str_of_nat :: "nat \<Rightarrow> string" where
  "str_of_nat n =
     (if n < 10 then [digit_char n] else str_of_nat (n div 10) @ [digit_char (n mod 10)])"

declare str_of_nat.simps [simp del]

text \<open>Python's \<^verbatim>\<open>str(i)\<close> and \<^verbatim>\<open>f"{i}"\<close> for an integer \<open>i\<close>.\<close>

definition str_of_int :: "int \<Rightarrow> string" where
  "str_of_int i =
     (if i < 0 then CHR ''-'' # str_of_nat (nat (- i)) else str_of_nat (nat i))"

fun nat_of_digits :: "nat \<Rightarrow> string \<Rightarrow> nat option" where
  "nat_of_digits acc [] = Some acc"
| "nat_of_digits acc (c # cs) =
     (case digit_of c of None \<Rightarrow> None | Some d \<Rightarrow> nat_of_digits (10 * acc + d) cs)"

text \<open>
  Python's \<^verbatim>\<open>int(s)\<close>: an optional sign and at least one decimal digit; \<open>None\<close>
  stands for \<^verbatim>\<open>ValueError\<close>. Python also accepts blanks around the numeral,
  underscores between digits and decimal digits outside ASCII; text of that form is never
  written by the handlers and is read as no numeral here, so that whatever is read as a
  numeral here is read as the same numeral by Python.
\<close>

definition int_of_str :: "string \<Rightarrow> int option" where
  "int_of_str s =
     (case s of
        [] \<Rightarrow> None
      | c # cs \<Rightarrow>
          if c = CHR ''-'' then
            (if cs = [] then None else map_option (\<lambda>n. - int n) (nat_of_digits 0 cs))
          else if c = CHR ''+'' then
            (if cs = [] then None else map_option int (nat_of_digits 0 cs))
          else map_option int (nat_of_digits 0 s))"

text \<open>
  The store computes with signed 64-bit integers, while Python's integers are unbounded.
\<close>

definition int64 :: "int \<Rightarrow> bool" where
  "int64 v \<longleftrightarrow> - 9223372036854775808 \<le> v \<and> v \<le> 9223372036854775807"

text \<open>
  The store's own reading of a value as an integer (commands \<^verbatim>\<open>INCR\<close> and
  \<^verbatim>\<open>HINCRBY\<close>): only the canonical decimal text of an integer in the 64-bit
  range is accepted.
\<close>

definition redis_int :: "string \<Rightarrow> int option" where
  "redis_int t =
     (case int_of_str t of
        None \<Rightarrow> None
      | Some v \<Rightarrow> if str_of_int v = t \<and> int64 v then Some v else None)"

section \<open>The key-value store\<close>

text \<open>
  The three kinds of key the service uses:
  \<^item> \<^verbatim>\<open>item_ids\<close>, the counter (absent until the first increment);
  \<^item> \<^verbatim>\<open>item_name_to_id\<close>, a hash from item name to the id's text, kept as an
    association list in insertion order, which is the order \<^verbatim>\<open>HGETALL\<close> yields;
  \<^item> \<^verbatim>\<open>item_id:{id}\<close>, one hash per id with the fields \<^verbatim>\<open>item_id\<close>,
    \<^verbatim>\<open>item_name\<close> and \<^verbatim>\<open>quantity\<close>. A key that does not exist and an
    empty hash are the same thing in the store, so the hashes are a total function
    from ids to field maps.
\<close>

record store =
  item_ids :: "string option"
  item_name_to_id :: "(string \<times> string) list"
  item_hash :: "int \<Rightarrow> string \<rightharpoonup> string"

definition empty_store :: store where
  "empty_store = \<lparr>item_ids = None, item_name_to_id = [], item_hash = (\<lambda>_. Map.empty)\<rparr>"

datatype error = HTTPException int string | ValueError | ResponseError

text \<open>\<^verbatim>\<open>redis_client.hget("item_name_to_id", name)\<close>\<close>

definition hget_name :: "store \<Rightarrow> string \<Rightarrow> string option" where
  "hget_name s name = map_of (item_name_to_id s) name"

text \<open>\<^verbatim>\<open>redis_client.hset("item_name_to_id", name, id)\<close>\<close>

definition hset_name :: "store \<Rightarrow> string \<Rightarrow> int \<Rightarrow> store" where
  "hset_name s name i =
     s\<lparr>item_name_to_id := AList.update name (str_of_int i) (item_name_to_id s)\<rparr>"

text \<open>\<^verbatim>\<open>redis_client.hdel("item_name_to_id", name)\<close>\<close>

definition hdel_name :: "store \<Rightarrow> string \<Rightarrow> store" where
  "hdel_name s name = s\<lparr>item_name_to_id := AList.delete name (item_name_to_id s)\<rparr>"

text \<open>\<^verbatim>\<open>redis_client.hget(f"item_id:{i}", field)\<close>\<close>

definition hget :: "store \<Rightarrow> int \<Rightarrow> string \<Rightarrow> string option" where
  "hget s i field = item_hash s i field"

text \<open>\<^verbatim>\<open>redis_client.hexists(f"item_id:{i}", field)\<close>\<close>

definition hexists :: "store \<Rightarrow> int \<Rightarrow> string \<Rightarrow> bool" where
  "hexists s i field = (item_hash s i field \<noteq> None)"

text \<open>\<^verbatim>\<open>redis_client.hgetall(f"item_id:{i}")\<close>\<close>

definition hgetall :: "store \<Rightarrow> int \<Rightarrow> (string \<rightharpoonup> string)" where
  "hgetall s i = item_hash s i"

text \<open>\<^verbatim>\<open>redis_client.hset(f"item_id:{i}", mapping=m)\<close>\<close>

definition hset_mapping :: "store \<Rightarrow> int \<Rightarrow> (string \<rightharpoonup> string) \<Rightarrow> store" where
  "hset_mapping s i m = s\<lparr>item_hash := (item_hash s)(i := item_hash s i ++ m)\<rparr>"

text \<open>\<^verbatim>\<open>redis_client.delete(f"item_id:{i}")\<close>\<close>

definition delete_key :: "store \<Rightarrow> int \<Rightarrow> store" where
  "delete_key s i = s\<lparr>item_hash := (item_hash s)(i := Map.empty)\<rparr>"

text \<open>
  \<^verbatim>\<open>redis_client.incr("item_ids")\<close>: an absent counter counts as 0; the new value
  is stored and returned. A counter that holds no 64-bit integer, or whose successor
  leaves the 64-bit range, makes the command fail and the store is left as it was.
\<close>

definition incr :: "store \<Rightarrow> (error + int) \<times> store" where
  "incr s =
     (case (case item_ids s of None \<Rightarrow> Some 0 | Some t \<Rightarrow> redis_int t) of
        None \<Rightarrow> (Inl ResponseError, s)
      | Some v \<Rightarrow>
          if int64 (v + 1) then (Inr (v + 1), s\<lparr>item_ids := Some (str_of_int (v + 1))\<rparr>)
          else (Inl ResponseError, s))"

text \<open>
  \<^verbatim>\<open>redis_client.hincrby(f"item_id:{i}", field, delta)\<close>: an absent field counts
  as 0 (the command creates it, and the hash with it); the new value is stored and
  returned. The command fails, and the store is left as it was, when the increment is no
  64-bit integer, when the field holds no 64-bit integer, or when the sum leaves the
  64-bit range.
\<close>

definition hincrby :: "store \<Rightarrow> int \<Rightarrow> string \<Rightarrow> int \<Rightarrow> (error + int) \<times> store" where
  "hincrby s i field delta =
     (if \<not> int64 delta then (Inl ResponseError, s)
      else
        (case (case item_hash s i field of None \<Rightarrow> Some 0 | Some t \<Rightarrow> redis_int t) of
           None \<Rightarrow> (Inl ResponseError, s)
         | Some v \<Rightarrow>
             if int64 (v + delta) then
               (Inr (v + delta),
                s\<lparr>item_hash :=
                    (item_hash s)(i := (item_hash s i)(field \<mapsto> str_of_int (v + delta)))\<rparr>)
             else (Inl ResponseError, s)))"

section \<open>The request handlers\<close>

text \<open>
  Modelled from the spec: \<^verbatim>\<open>ItemPayload\<close> is declared in \<^verbatim>\<open>models.py\<close>,
  which is not among the sources; it is the record of an id, a name and a quantity
  that the handlers build with the keywords \<^verbatim>\<open>item_id\<close>, \<^verbatim>\<open>item_name\<close>
  and \<^verbatim>\<open>quantity\<close>.
\<close>

record ItemPayload =
  item_id :: int
  item_name :: string
  quantity :: int

text \<open>
  Every handler takes the store and returns its response, or the exception it raises,
  together with the store it leaves behind. A response \<^verbatim>\<open>{"item": x}\<close>,
  \<^verbatim>\<open>{"items": x}\<close> or \<^verbatim>\<open>{"result": x}\<close> is modelled by \<open>x\<close>.
\<close>

definition add_item :: "store \<Rightarrow> string \<Rightarrow> int \<Rightarrow> (error + ItemPayload) \<times> store" where
  "add_item s name qty =
     (if qty \<le> 0 then (Inl (HTTPException 400 ''Quantity must be greater than 0.''), s)
      else
        (case hget_name s name of
           Some item_id_str \<Rightarrow>
             (case int_of_str item_id_str of
                None \<Rightarrow> (Inl ValueError, s)
              | Some i \<Rightarrow>
                  (case hincrby s i ''quantity'' qty of
                     (Inl e, s') \<Rightarrow> (Inl e, s')
                   | (Inr _, s') \<Rightarrow>
                       (Inr \<lparr>item_id = i, item_name = name, quantity = qty\<rparr>, s')))
         | None \<Rightarrow>
             (case incr s of
                (Inl e, s') \<Rightarrow> (Inl e, s')
              | (Inr i, s1) \<Rightarrow>
                  (let s2 = hset_mapping s1 i
                              [''item_id'' \<mapsto> str_of_int i,
                               ''item_name'' \<mapsto> name,
                               ''quantity'' \<mapsto> str_of_int qty];
                       s3 = hset_name s2 name i
                   in (Inr \<lparr>item_id = i, item_name = name, quantity = qty\<rparr>, s3)))))"

definition list_item :: "store \<Rightarrow> int \<Rightarrow> (error + (string \<rightharpoonup> string)) \<times> store" where
  "list_item s i =
     (if \<not> hexists s i ''item_id'' then (Inl (HTTPException 404 ''Item not found.''), s)
      else (Inr (hgetall s i), s))"

text \<open>
  The loop of \<^verbatim>\<open>list_items\<close> over the entries of the name hash; \<open>acc\<close> is the
  list \<^verbatim>\<open>items\<close> built so far.
\<close>

fun list_items_loop ::
  "store \<Rightarrow> (string \<times> string) list \<Rightarrow> ItemPayload list \<Rightarrow> error + ItemPayload list" where
  "list_items_loop s [] acc = Inr acc"
| "list_items_loop s ((name, id_str) # rest) acc =
     (case int_of_str id_str of
        None \<Rightarrow> Inl ValueError
      | Some i \<Rightarrow>
          (case hget s i ''item_name'' of
             None \<Rightarrow> list_items_loop s rest acc
           | Some nm \<Rightarrow>
               (case hget s i ''quantity'' of
                  None \<Rightarrow>
                    list_items_loop s rest
                      (acc @ [\<lparr>item_id = i, item_name = nm, quantity = 0\<rparr>])
                | Some qs \<Rightarrow>
                    (case int_of_str qs of
                       None \<Rightarrow> Inl ValueError
                     | Some q \<Rightarrow>
                         list_items_loop s rest
                           (acc @ [\<lparr>item_id = i, item_name = nm, quantity = q\<rparr>])))))"

definition list_items :: "store \<Rightarrow> (error + ItemPayload list) \<times> store" where
  "list_items s = (list_items_loop s (item_name_to_id s) [], s)"

text \<open>
  Python's \<^verbatim>\<open>f"{item_name}"\<close> for the result of \<^verbatim>\<open>hget\<close>: the text itself,
  or \<^verbatim>\<open>None\<close> spelled out when the field is absent.
\<close>

definition fmt_opt :: "string option \<Rightarrow> string" where
  "fmt_opt v = (case v of None \<Rightarrow> ''None'' | Some t \<Rightarrow> t)"

definition delete_item :: "store \<Rightarrow> int \<Rightarrow> (error + string) \<times> store" where
  "delete_item s i =
     (if \<not> hexists s i ''item_id'' then (Inl (HTTPException 404 ''Item not found.''), s)
      else
        (let nm = hget s i ''item_name'';
             s1 = hdel_name s (fmt_opt nm);
             s2 = delete_key s1 i
         in (Inr (''Item ('' @ str_of_int i @ '', '' @ fmt_opt nm @ '') deleted.''), s2)))"

definition remove_quantity :: "store \<Rightarrow> int \<Rightarrow> int \<Rightarrow> (error + string) \<times> store" where
  "remove_quantity s i qty =
     (if \<not> hexists s i ''item_id'' then (Inl (HTTPException 404 ''Item not found.''), s)
      else
        (let item_quantity = hget s i ''quantity'';
             nm = hget s i ''item_name''
         in (case (case item_quantity of None \<Rightarrow> Some 0 | Some t \<Rightarrow> int_of_str t) of
               None \<Rightarrow> (Inl ValueError, s)
             | Some existing_quantity \<Rightarrow>
                 if existing_quantity \<le> qty then
                   (let s1 = hdel_name s (fmt_opt nm);
                        s2 = delete_key s1 i
                    in (Inr (''Item ('' @ str_of_int i @ '', '' @ fmt_opt nm @ '') deleted.''),
                        s2))
                 else
                   (case hincrby s i ''quantity'' (- qty) of
                      (Inl e, s') \<Rightarrow> (Inl e, s')
                    | (Inr _, s') \<Rightarrow>
                        (Inr (str_of_int qty @ '' of '' @ str_of_int existing_quantity
                              @ '' items from ('' @ str_of_int i @ '', '' @ fmt_opt nm
                              @ '') removed.''), s')))))"

section \<open>Sequences of requests\<close>

datatype request = Add string int | Remove int int | Delete int

fun exec :: "store \<Rightarrow> request \<Rightarrow> store" where
  "exec s (Add name qty) = snd (add_item s name qty)"
| "exec s (Remove i qty) = snd (remove_quantity s i qty)"
| "exec s (Delete i) = snd (delete_item s i)"

inductive reachable :: "store \<Rightarrow> bool" where
  start: "reachable empty_store"
| step: "reachable s \<Longrightarrow> reachable (exec s r)"


section \<open>Consistent stores\<close>

definition counter_value :: "store \<Rightarrow> int option" where
  "counter_value s = (case item_ids s of None \<Rightarrow> Some 0 | Some t \<Rightarrow> redis_int t)"

definition record_ok :: "store \<Rightarrow> int \<Rightarrow> bool" where
  "record_ok s i \<longleftrightarrow>
     (\<exists>n q. item_hash s i =
              [''item_id'' \<mapsto> str_of_int i, ''item_name'' \<mapsto> n, ''quantity'' \<mapsto> str_of_int q]
        \<and> 0 < q \<and> hget_name s n = Some (str_of_int i))"

definition consistent :: "store \<Rightarrow> bool" where
  "consistent s \<longleftrightarrow>
     (\<exists>c. counter_value s = Some c \<and> 0 \<le> c
        \<and> (\<forall>i. item_hash s i \<noteq> Map.empty \<longrightarrow> 0 < i \<and> i \<le> c))
     \<and> (\<forall>i. item_hash s i \<noteq> Map.empty \<longrightarrow> record_ok s i)
     \<and> (\<forall>n v. hget_name s n = Some v \<longrightarrow>
           (\<exists>i. v = str_of_int i \<and> item_hash s i ''item_name'' = Some n))
     \<and> distinct (map fst (item_name_to_id s))"


section \<open>Ids issued along a sequence of requests\<close>

text \<open>
  The ids that \<^verbatim>\<open>incr("item_ids")\<close> hands out while the requests \<open>rs\<close> are
  served one after the other from \<open>s\<close>: an add-item request for a name the directory
  does not know takes the branch that allocates, and its response carries the new id.
\<close>

fun issued_ids :: "store \<Rightarrow> request list \<Rightarrow> int list" where
  "issued_ids s [] = []"
| "issued_ids s (Add name qty # rs) =
     (case (hget_name s name, fst (add_item s name qty)) of
        (None, Inr p) \<Rightarrow> [item_id p]
      | _ \<Rightarrow> []) @ issued_ids (exec s (Add name qty)) rs"
| "issued_ids s (r # rs) = issued_ids (exec s r) rs"

section \<open>Example stores\<close>

text \<open>The store after \<^verbatim>\<open>POST /items/apple/5\<close> on an empty store.\<close>

definition apple5 :: store where
  "apple5 = snd (add_item empty_store ''apple'' 5)"

text \<open>
  The store after \<^verbatim>\<open>POST /items/apple/9223372036854775807\<close> on an empty store:
  the record holds the largest 64-bit integer.
\<close>

definition apple_max :: store where
  "apple_max = snd (add_item empty_store ''apple'' 9223372036854775807)"

text \<open>
  The store after \<^verbatim>\<open>POST /items/apple/9223372036854775808\<close> on an empty store:
  the record holds a quantity one above the 64-bit range.
\<close>

definition apple_big :: store where
  "apple_big = snd (add_item empty_store ''apple'' 9223372036854775808)"


section \<open>Reading back what was written\<close>

lemma digit_of_digit_char: "d < 10 \<Longrightarrow> digit_of (digit_char d) = Some d"
proof -
  assume "d < 10"
  then have "d \<in> {0, 1, 2, 3, 4, 5, 6, 7, 8, 9}" by auto
  then show ?thesis by (auto simp add: digit_of_def digit_char_def)
qed

lemma digit_char_not_sign:
  "d < 10 \<Longrightarrow> digit_char d \<noteq> CHR ''-''" "d < 10 \<Longrightarrow> digit_char d \<noteq> CHR ''+''"
  using digit_of_digit_char [of d] by (auto simp: digit_of_def)

lemma nat_of_digits_append:
  "nat_of_digits acc (xs @ ys) =
     (case nat_of_digits acc xs of None \<Rightarrow> None | Some a \<Rightarrow> nat_of_digits a ys)"
  by (induction xs arbitrary: acc) (auto split: option.splits)

lemma nat_of_digits_str_of_nat: "nat_of_digits 0 (str_of_nat n) = Some n"
proof (induction n rule: str_of_nat.induct)
  case (1 n)
  show ?case
  proof (cases "n < 10")
    case True
    then show ?thesis
      by (simp add: str_of_nat.simps [of n] digit_of_digit_char)
  next
    case False
    with 1 have "nat_of_digits 0 (str_of_nat (n div 10)) = Some (n div 10)"
      by simp
    with False show ?thesis
      by (simp add: str_of_nat.simps [of n] nat_of_digits_append digit_of_digit_char)
  qed
qed

lemma str_of_nat_not_Nil: "str_of_nat n \<noteq> []"
  by (simp add: str_of_nat.simps [of n])

lemma hd_str_of_nat: "\<exists>d cs. d < 10 \<and> str_of_nat n = digit_char d # cs"
proof (induction n rule: str_of_nat.induct)
  case (1 n)
  show ?case
  proof (cases "n < 10")
    case True
    then have "str_of_nat n = digit_char n # []"
      by (simp add: str_of_nat.simps [of n])
    with True show ?thesis by blast
  next
    case False
    with 1 obtain d cs where "d < 10" "str_of_nat (n div 10) = digit_char d # cs"
      by blast
    with False have "d < 10 \<and> str_of_nat n = digit_char d # (cs @ [digit_char (n mod 10)])"
      by (simp add: str_of_nat.simps [of n])
    then show ?thesis by blast
  qed
qed

lemma int_of_str_str_of_int: "int_of_str (str_of_int i) = Some i"
proof (cases "i < 0")
  case True
  then show ?thesis
    by (simp add: int_of_str_def str_of_int_def str_of_nat_not_Nil nat_of_digits_str_of_nat)
next
  case False
  obtain d cs where d: "d < 10" and dc: "str_of_nat (nat i) = digit_char d # cs"
    using hd_str_of_nat by blast
  have "nat_of_digits 0 (digit_char d # cs) = Some (nat i)"
    using nat_of_digits_str_of_nat [of "nat i"] dc by simp
  with False dc d show ?thesis
    by (simp add: int_of_str_def str_of_int_def digit_char_not_sign del: nat_of_digits.simps)
qed

lemma redis_int_str_of_int: "redis_int (str_of_int i) = (if int64 i then Some i else None)"
  by (simp add: redis_int_def int_of_str_str_of_int)

lemma redis_int_int64: "redis_int t = Some v \<Longrightarrow> int64 v"
  by (auto simp: redis_int_def split: option.splits if_splits)

lemma redis_int_SomeD: "redis_int t = Some v \<Longrightarrow> t = str_of_int v"
  by (auto simp: redis_int_def split: option.splits if_splits)

lemma str_of_int_inject: "str_of_int i = str_of_int j \<longleftrightarrow> i = j"
  by (metis int_of_str_str_of_int option.inject)

lemma str_of_nat_digit: "n < 10 \<Longrightarrow> str_of_nat n = [digit_char n]"
  by (simp add: str_of_nat.simps [of n])

section \<open>Consistency is kept by every handler\<close>

lemmas store_ops =
  hget_name_def hset_name_def hdel_name_def hget_def hexists_def hgetall_def
  hset_mapping_def delete_key_def incr_def hincrby_def

lemma hincrby_stored:
  assumes "item_hash s i field = Some (str_of_int v)"
  shows "hincrby s i field delta =
           (if int64 delta \<and> int64 v \<and> int64 (v + delta) then
              (Inr (v + delta),
               s\<lparr>item_hash :=
                   (item_hash s)(i := (item_hash s i)(field \<mapsto> str_of_int (v + delta)))\<rparr>)
            else (Inl ResponseError, s))"
  using assms by (simp add: hincrby_def redis_int_str_of_int)

lemma consistent_empty_store: "consistent empty_store"
  by (simp add: consistent_def empty_store_def counter_value_def hget_name_def)

lemma consistent_name_record:
  assumes "consistent s" and "hget_name s name = Some v"
  shows "\<exists>i q. v = str_of_int i \<and> 0 < q \<and> 0 < i
           \<and> item_hash s i = [''item_id'' \<mapsto> str_of_int i, ''item_name'' \<mapsto> name,
                               ''quantity'' \<mapsto> str_of_int q]"
proof -
  from assms obtain i where i: "v = str_of_int i" "item_hash s i ''item_name'' = Some name"
    unfolding consistent_def by blast
  then have ne: "item_hash s i \<noteq> Map.empty" by auto
  with assms(1) have "record_ok s i" "0 < i" unfolding consistent_def by blast+
  with i show ?thesis unfolding record_ok_def by fastforce
qed

lemma consistent_record:
  assumes "consistent s" and "item_hash s i \<noteq> Map.empty"
  shows "\<exists>n q. 0 < q \<and> hget_name s n = Some (str_of_int i)
           \<and> item_hash s i = [''item_id'' \<mapsto> str_of_int i, ''item_name'' \<mapsto> n,
                               ''quantity'' \<mapsto> str_of_int q]"
  using assms unfolding consistent_def record_ok_def by blast

lemma add_item_existing:
  assumes "0 < qty" and "hget_name s name = Some (str_of_int i)"
    and "item_hash s i ''quantity'' = Some (str_of_int q)"
  shows "add_item s name qty =
           (if int64 qty \<and> int64 q \<and> int64 (q + qty) then
              (Inr \<lparr>item_id = i, item_name = name, quantity = qty\<rparr>,
               s\<lparr>item_hash :=
                   (item_hash s)(i := (item_hash s i)(''quantity'' \<mapsto> str_of_int (q + qty)))\<rparr>)
            else (Inl ResponseError, s))"
  using assms
  by (simp add: add_item_def int_of_str_str_of_int hincrby_stored)

lemma add_item_new:
  assumes "0 < qty" and "hget_name s name = None" and "counter_value s = Some c"
  shows "add_item s name qty =
           (if int64 (c + 1) then
              (Inr \<lparr>item_id = c + 1, item_name = name, quantity = qty\<rparr>,
               s\<lparr>item_ids := Some (str_of_int (c + 1)),
                 item_hash := (item_hash s)(c + 1 := item_hash s (c + 1) ++
                    [''item_id'' \<mapsto> str_of_int (c + 1), ''item_name'' \<mapsto> name,
                     ''quantity'' \<mapsto> str_of_int qty]),
                 item_name_to_id :=
                   AList.update name (str_of_int (c + 1)) (item_name_to_id s)\<rparr>)
            else (Inl ResponseError, s))"
  using assms
  by (simp add: add_item_def incr_def counter_value_def hset_mapping_def hset_name_def Let_def)



lemma consistent_set_quantity:
  assumes c: "consistent s" and ne: "item_hash s i \<noteq> Map.empty" and q: "0 < q'"
  shows "consistent
           (s\<lparr>item_hash := (item_hash s)(i := (item_hash s i)(''quantity'' \<mapsto> str_of_int q'))\<rparr>)"
    (is "consistent ?s'")
proof -
  from consistent_record [OF c ne] obtain n q0 where
    h: "hget_name s n = Some (str_of_int i)" and
    rec: "item_hash s i = [''item_id'' \<mapsto> str_of_int i, ''item_name'' \<mapsto> n,
                           ''quantity'' \<mapsto> str_of_int q0]"
    by blast
  have hn: "hget_name ?s' = hget_name s"
    by (simp add: hget_name_def fun_eq_iff)
  have cv: "counter_value ?s' = counter_value s"
    by (simp add: counter_value_def)
  have ne': "\<And>j. item_hash ?s' j \<noteq> Map.empty \<longleftrightarrow> item_hash s j \<noteq> Map.empty"
    using rec by (auto simp: fun_eq_iff)
  have ro: "\<And>j. record_ok s j \<Longrightarrow> record_ok ?s' j"
  proof -
    fix j assume rj: "record_ok s j"
    show "record_ok ?s' j"
    proof (cases "j = i")
      case True
      have "item_hash ?s' i = [''item_id'' \<mapsto> str_of_int i, ''item_name'' \<mapsto> n,
                           ''quantity'' \<mapsto> str_of_int q']"
        using rec by (simp add: fun_eq_iff)
      then show ?thesis
        unfolding record_ok_def using h q True hn by metis
    next
      case False
      with rj show ?thesis by (simp add: record_ok_def hget_name_def)
    qed
  qed
  have nm: "\<And>j. item_hash ?s' j ''item_name'' = item_hash s j ''item_name''"
    by simp
  show ?thesis
    using c unfolding consistent_def cv hn ne' nm
    by (simp add: ro)
qed

lemma consistent_create:
  assumes c: "consistent s" and h: "hget_name s name = None"
    and cv: "counter_value s = Some k" and q: "0 < qty" and r: "int64 (k + 1)"
  shows "consistent
           (s\<lparr>item_ids := Some (str_of_int (k + 1)),
              item_hash := (item_hash s)(k + 1 := item_hash s (k + 1) ++
                 [''item_id'' \<mapsto> str_of_int (k + 1), ''item_name'' \<mapsto> name,
                  ''quantity'' \<mapsto> str_of_int qty]),
              item_name_to_id := AList.update name (str_of_int (k + 1)) (item_name_to_id s)\<rparr>)"
    (is "consistent ?s'")
proof -
  from c cv have k: "0 \<le> k" and bound: "\<And>j. item_hash s j \<noteq> Map.empty \<Longrightarrow> 0 < j \<and> j \<le> k"
    unfolding consistent_def by auto
  have fresh: "item_hash s (k + 1) = Map.empty"
    using bound [of "k + 1"] by auto
  have new: "item_hash ?s' (k + 1) =
       [''item_id'' \<mapsto> str_of_int (k + 1), ''item_name'' \<mapsto> name, ''quantity'' \<mapsto> str_of_int qty]"
    by (simp add: fresh)
  have old: "\<And>j. j \<noteq> k + 1 \<Longrightarrow> item_hash ?s' j = item_hash s j"
    by simp
  have hn: "hget_name ?s' = (hget_name s)(name \<mapsto> str_of_int (k + 1))"
    by (simp add: fun_eq_iff hget_name_def update_conv)
  have cv': "counter_value ?s' = Some (k + 1)"
    using r by (simp add: counter_value_def redis_int_str_of_int)
  have 1: "\<exists>c. counter_value ?s' = Some c \<and> 0 \<le> c
        \<and> (\<forall>i. item_hash ?s' i \<noteq> Map.empty \<longrightarrow> 0 < i \<and> i \<le> c)"
  proof (intro exI [of _ "k + 1"] conjI allI impI)
    show "counter_value ?s' = Some (k + 1)" by (rule cv')
    show "0 \<le> k + 1" using k by simp
  next
    fix i assume "item_hash ?s' i \<noteq> Map.empty"
    then have "i = k + 1 \<or> item_hash s i \<noteq> Map.empty"
      using old by metis
    then show "0 < i" "i \<le> k + 1" using bound [of i] k by auto
  qed
  have 2: "\<forall>i. item_hash ?s' i \<noteq> Map.empty \<longrightarrow> record_ok ?s' i"
  proof (intro allI impI)
    fix i assume ne: "item_hash ?s' i \<noteq> Map.empty"
    show "record_ok ?s' i"
    proof (cases "i = k + 1")
      case True
      then show ?thesis
        unfolding record_ok_def hn using new q by auto
    next
      case False
      with ne old have ne0: "item_hash s i \<noteq> Map.empty" by simp
      from consistent_record [OF c ne0] obtain n q0 where
        *: "0 < q0" "hget_name s n = Some (str_of_int i)"
        "item_hash s i = [''item_id'' \<mapsto> str_of_int i, ''item_name'' \<mapsto> n,
                               ''quantity'' \<mapsto> str_of_int q0]"
        by blast
      with h have "n \<noteq> name" by auto
      with * False show ?thesis
        unfolding record_ok_def hn old [OF False] by auto
    qed
  qed
  have 3: "\<forall>n v. hget_name ?s' n = Some v \<longrightarrow>
           (\<exists>i. v = str_of_int i \<and> item_hash ?s' i ''item_name'' = Some n)"
  proof (intro allI impI)
    fix n v assume a: "hget_name ?s' n = Some v"
    show "\<exists>i. v = str_of_int i \<and> item_hash ?s' i ''item_name'' = Some n"
    proof (cases "n = name")
      case True
      with a hn have "v = str_of_int (k + 1)" by simp
      with True new show ?thesis by (intro exI [of _ "k + 1"]) simp
    next
      case False
      with a hn have "hget_name s n = Some v" by simp
      with c obtain i where i: "v = str_of_int i" "item_hash s i ''item_name'' = Some n"
        unfolding consistent_def by blast
      then have "i \<noteq> k + 1" using fresh by auto
      with i old show ?thesis by (intro exI [of _ i]) simp
    qed
  qed
  have 4: "distinct (map fst (item_name_to_id ?s'))"
    using c by (simp add: consistent_def distinct_update)
  from 1 2 3 4 show ?thesis
    unfolding consistent_def by blast
qed

lemma consistent_drop:
  assumes c: "consistent s" and ne: "item_hash s i \<noteq> Map.empty"
  shows "consistent (delete_key (hdel_name s (fmt_opt (hget s i ''item_name''))) i)"
    (is "consistent ?s'")
proof -
  from consistent_record [OF c ne] obtain n q0 where
    h: "hget_name s n = Some (str_of_int i)" and
    rec: "item_hash s i = [''item_id'' \<mapsto> str_of_int i, ''item_name'' \<mapsto> n,
                           ''quantity'' \<mapsto> str_of_int q0]"
    by blast
  have nm: "fmt_opt (hget s i ''item_name'') = n"
    using rec by (simp add: fmt_opt_def hget_def)
  have gone: "item_hash ?s' i = Map.empty"
    by (simp add: delete_key_def hdel_name_def)
  have old: "\<And>j. j \<noteq> i \<Longrightarrow> item_hash ?s' j = item_hash s j"
    by (simp add: delete_key_def hdel_name_def)
  have hn: "hget_name ?s' = (hget_name s)(n := None)"
    unfolding nm by (simp add: fun_eq_iff hget_name_def delete_key_def hdel_name_def delete_conv)
  have cv: "counter_value ?s' = counter_value s"
    by (simp add: counter_value_def delete_key_def hdel_name_def)
  have sub: "\<And>j. item_hash ?s' j \<noteq> Map.empty \<Longrightarrow> j \<noteq> i \<and> item_hash s j \<noteq> Map.empty"
    using gone old by metis
  have 1: "\<exists>c. counter_value ?s' = Some c \<and> 0 \<le> c
        \<and> (\<forall>i. item_hash ?s' i \<noteq> Map.empty \<longrightarrow> 0 < i \<and> i \<le> c)"
    using c sub unfolding consistent_def cv by blast
  have 2: "\<forall>j. item_hash ?s' j \<noteq> Map.empty \<longrightarrow> record_ok ?s' j"
  proof (intro allI impI)
    fix j assume "item_hash ?s' j \<noteq> Map.empty"
    with sub have ji: "j \<noteq> i" and ne0: "item_hash s j \<noteq> Map.empty" by auto
    from consistent_record [OF c ne0] obtain m q1 where
      *: "0 < q1" "hget_name s m = Some (str_of_int j)"
      "item_hash s j = [''item_id'' \<mapsto> str_of_int j, ''item_name'' \<mapsto> m,
                             ''quantity'' \<mapsto> str_of_int q1]"
      by blast
    with h ji have "m \<noteq> n" by (auto simp: str_of_int_inject)
    with * show "record_ok ?s' j"
      unfolding record_ok_def hn old [OF ji] by auto
  qed
  have 3: "\<forall>m v. hget_name ?s' m = Some v \<longrightarrow>
           (\<exists>j. v = str_of_int j \<and> item_hash ?s' j ''item_name'' = Some m)"
  proof (intro allI impI)
    fix m v assume a: "hget_name ?s' m = Some v"
    then have mn: "m \<noteq> n" and "hget_name s m = Some v"
      unfolding hn by (auto split: if_splits)
    with c obtain j where j: "v = str_of_int j" "item_hash s j ''item_name'' = Some m"
      unfolding consistent_def by blast
    with rec mn have "j \<noteq> i" by auto
    with j old show "\<exists>j. v = str_of_int j \<and> item_hash ?s' j ''item_name'' = Some m"
      by (intro exI [of _ j]) simp
  qed
  have 4: "distinct (map fst (item_name_to_id ?s'))"
    using c by (simp add: consistent_def delete_key_def hdel_name_def distinct_delete)
  from 1 2 3 4 show ?thesis
    unfolding consistent_def by blast
qed


lemma consistent_add_item: "consistent s \<Longrightarrow> consistent (snd (add_item s name qty))"
proof -
  assume c: "consistent s"
  show ?thesis
  proof (cases "qty \<le> 0")
    case True
    with c show ?thesis by (simp add: add_item_def)
  next
    case False
    then have q: "0 < qty" by simp
    show ?thesis
    proof (cases "hget_name s name")
      case None
      from c obtain k where k: "counter_value s = Some k"
        unfolding consistent_def by blast
      show ?thesis
      proof (cases "int64 (k + 1)")
        case True
        with add_item_new [OF q None k] consistent_create [OF c None k q True]
        show ?thesis by simp
      next
        case False
        with add_item_new [OF q None k] c show ?thesis by simp
      qed
    next
      case (Some v)
      from consistent_name_record [OF c Some] obtain i q0 where
        v: "v = str_of_int i" and
        rec: "item_hash s i = [''item_id'' \<mapsto> str_of_int i, ''item_name'' \<mapsto> name,
                               ''quantity'' \<mapsto> str_of_int q0]" and q0: "0 < q0"
        by blast
      have ne: "item_hash s i \<noteq> Map.empty" using rec by auto
      have hq: "item_hash s i ''quantity'' = Some (str_of_int q0)"
        using rec by simp
      have hs: "hget_name s name = Some (str_of_int i)"
        using Some v by simp
      have "0 < q0 + qty" using q q0 by simp
      from consistent_set_quantity [OF c ne this] c
      show ?thesis
        by (simp add: add_item_existing [OF q hs hq])
    qed
  qed
qed

lemma remove_quantity_absent:
  "\<not> hexists s i ''item_id'' \<Longrightarrow>
     remove_quantity s i qty = (Inl (HTTPException 404 ''Item not found.''), s)"
  by (simp add: remove_quantity_def)

lemma remove_quantity_all:
  assumes "hexists s i ''item_id''" and "hget s i ''quantity'' = Some (str_of_int c)"
    and "c \<le> qty"
  shows "remove_quantity s i qty =
           (Inr (''Item ('' @ str_of_int i @ '', '' @ fmt_opt (hget s i ''item_name'')
                 @ '') deleted.''),
            delete_key (hdel_name s (fmt_opt (hget s i ''item_name''))) i)"
  using assms by (simp add: remove_quantity_def Let_def int_of_str_str_of_int)

lemma remove_quantity_some:
  assumes "hexists s i ''item_id''" and "hget s i ''quantity'' = Some (str_of_int c)"
    and "qty < c"
  shows "remove_quantity s i qty =
           (if int64 (- qty) \<and> int64 c \<and> int64 (c - qty) then
              (Inr (str_of_int qty @ '' of '' @ str_of_int c @ '' items from (''
                    @ str_of_int i @ '', '' @ fmt_opt (hget s i ''item_name'')
                    @ '') removed.''),
               s\<lparr>item_hash := (item_hash s)
                    (i := (item_hash s i)(''quantity'' \<mapsto> str_of_int (c - qty)))\<rparr>)
            else (Inl ResponseError, s))"
proof -
  from assms(2) have "item_hash s i ''quantity'' = Some (str_of_int c)"
    by (simp add: hget_def)
  from hincrby_stored [OF this, of "- qty"] assms show ?thesis
    by (simp add: remove_quantity_def Let_def int_of_str_str_of_int)
qed

lemma consistent_remove_quantity:
  assumes c: "consistent s"
  shows "consistent (snd (remove_quantity s i qty))"
proof (cases "hexists s i ''item_id''")
  case False
  with c show ?thesis by (simp add: remove_quantity_absent)
next
  case True
  then have ne: "item_hash s i \<noteq> Map.empty" by (auto simp: hexists_def)
  from consistent_record [OF c ne] obtain n q0 where
    q0: "0 < q0" and
    rec: "item_hash s i = [''item_id'' \<mapsto> str_of_int i, ''item_name'' \<mapsto> n,
                           ''quantity'' \<mapsto> str_of_int q0]"
    by blast
  have hq: "hget s i ''quantity'' = Some (str_of_int q0)"
    using rec by (simp add: hget_def)
  show ?thesis
  proof (cases "q0 \<le> qty")
    case True
    show ?thesis
      using remove_quantity_all [OF \<open>hexists s i ''item_id''\<close> hq True]
        consistent_drop [OF c ne] by simp
  next
    case False
    then have lt: "qty < q0" by simp
    then have "0 < q0 - qty" by simp
    from consistent_set_quantity [OF c ne this] c
    show ?thesis
      by (simp add: remove_quantity_some [OF True hq lt])
  qed
qed

lemma consistent_delete_item:
  assumes c: "consistent s"
  shows "consistent (snd (delete_item s i))"
proof (cases "hexists s i ''item_id''")
  case False
  with c show ?thesis by (simp add: delete_item_def)
next
  case True
  then have ne: "item_hash s i \<noteq> Map.empty" by (auto simp: hexists_def)
  from consistent_drop [OF c ne] True show ?thesis
    by (simp add: delete_item_def Let_def)
qed

lemma reachable_consistent: "reachable s \<Longrightarrow> consistent s"
proof (induction rule: reachable.induct)
  case start
  show ?case by (rule consistent_empty_store)
next
  case (step s r)
  then show ?case
    by (cases r)
      (simp_all add: consistent_add_item consistent_remove_quantity consistent_delete_item)
qed

section \<open>Evaluating the handlers on example stores\<close>

lemma str_of_int_digit: "0 \<le> i \<Longrightarrow> i < 10 \<Longrightarrow> str_of_int i = [digit_char (nat i)]"
  by (simp add: str_of_int_def str_of_nat_digit)

lemmas eval_ops =
  add_item_def remove_quantity_def delete_item_def list_item_def list_items_def
  store_ops fmt_opt_def Let_def empty_store_def
  int_of_str_def redis_int_def int64_def digit_of_def digit_char_def str_of_int_digit

lemma apple5_eq:
  "apple5 =
     \<lparr>item_ids = Some ''1'', item_name_to_id = [(''apple'', ''1'')],
      item_hash = (\<lambda>_. Map.empty)
        (1 := [''item_id'' \<mapsto> ''1'', ''item_name'' \<mapsto> ''apple'', ''quantity'' \<mapsto> ''5''])\<rparr>"
  by (simp add: apple5_def eval_ops)

lemma reachable_apple5: "reachable apple5"
  using reachable.step [OF reachable.start, of "Add ''apple'' 5"] by (simp add: apple5_def)

section \<open>Properties of the handlers\<close>

text \<open>
  Claim C6. For every name and every quantity that is zero or negative, add-item answers
  with the 400 exception and hands back the store it was given: the counter, the records
  and the directory are all untouched.
\<close>

theorem add_item_rejects_nonpositive:
  "qty \<le> 0 \<Longrightarrow>
     add_item s name qty = (Inl (HTTPException 400 ''Quantity must be greater than 0.''), s)"
  by (simp add: add_item_def)

theorem add_item_rejects_nonpositive_witness:
  "(- 2 :: int) \<le> 0 \<and>
   add_item apple5 ''apple'' (- 2) =
     (Inl (HTTPException 400 ''Quantity must be greater than 0.''), apple5)"
  using add_item_rejects_nonpositive [of "- 2" apple5 "''apple''"] by simp

text \<open>
  Claim C3. In every store reached from the empty one by add-item, remove-quantity and
  delete-item requests, every record that is present holds a quantity that is the text of
  a strictly positive integer.
\<close>

theorem reachable_quantity_positive:
  assumes "reachable s" and "item_hash s i \<noteq> Map.empty"
  shows "\<exists>q. hget s i ''quantity'' = Some (str_of_int q) \<and> 0 < q"
proof -
  from assms(1) have "consistent s" by (rule reachable_consistent)
  from consistent_record [OF this assms(2)] show ?thesis
    by (auto simp: hget_def)
qed

theorem reachable_quantity_positive_witness:
  "reachable apple5 \<and> item_hash apple5 1 \<noteq> Map.empty \<and>
   (\<exists>q. hget apple5 1 ''quantity'' = Some (str_of_int q) \<and> 0 < q)"
proof -
  have "item_hash apple5 1 ''item_id'' = Some ''1''"
    by (simp add: apple5_eq)
  then have ne: "item_hash apple5 1 \<noteq> Map.empty"
    by auto
  from reachable_quantity_positive [OF reachable_apple5 ne] reachable_apple5 ne
  show ?thesis by simp
qed

text \<open>
  Claim C4. When the record of id \<open>i\<close> exists with name \<open>n\<close> and quantity \<open>c\<close>,
  remove-quantity with an amount of at least \<open>c\<close> succeeds and deletes the record and
  the name's entry: afterwards the record's hash is empty, get-item answers 404, and the
  name resolves to nothing.
\<close>

theorem remove_quantity_deletes:
  assumes "hexists s i ''item_id''" and "hget s i ''item_name'' = Some n"
    and "hget s i ''quantity'' = Some (str_of_int c)" and "c \<le> amount"
  shows "\<exists>msg s'. remove_quantity s i amount = (Inr msg, s')
           \<and> item_hash s' i = Map.empty
           \<and> list_item s' i = (Inl (HTTPException 404 ''Item not found.''), s')
           \<and> hget_name s' n = None"
  using remove_quantity_all [OF assms(1,3,4)] assms(2)
  by (simp add: fmt_opt_def delete_key_def hdel_name_def list_item_def hexists_def
      hget_name_def delete_conv)

theorem remove_quantity_deletes_witness:
  "hexists apple5 1 ''item_id'' \<and> hget apple5 1 ''item_name'' = Some ''apple''
   \<and> hget apple5 1 ''quantity'' = Some (str_of_int 5) \<and> (5::int) \<le> 10
   \<and> hget_name apple5 ''apple'' = Some ''1''
   \<and> (\<exists>msg s'. remove_quantity apple5 1 10 = (Inr msg, s')
           \<and> item_hash s' 1 = Map.empty
           \<and> list_item s' 1 = (Inl (HTTPException 404 ''Item not found.''), s')
           \<and> hget_name s' ''apple'' = None)"
proof -
  have 1: "hexists apple5 1 ''item_id''"
    by (simp add: apple5_eq hexists_def)
  have 2: "hget apple5 1 ''item_name'' = Some ''apple''"
    by (simp add: apple5_eq hget_def)
  have 3: "hget apple5 1 ''quantity'' = Some (str_of_int 5)"
    by (simp add: apple5_eq hget_def str_of_int_digit digit_char_def)
  have 4: "hget_name apple5 ''apple'' = Some ''1''"
    by (simp add: apple5_eq hget_name_def)
  from remove_quantity_deletes [OF 1 2 3, of 10] 1 2 3 4 show ?thesis by simp
qed

lemma delete_item_absent:
  "\<not> hexists s i ''item_id'' \<Longrightarrow>
     delete_item s i = (Inl (HTTPException 404 ''Item not found.''), s)"
  by (simp add: delete_item_def)

lemma delete_item_present:
  "hexists s i ''item_id'' \<Longrightarrow>
     delete_item s i =
       (Inr (''Item ('' @ str_of_int i @ '', '' @ fmt_opt (hget s i ''item_name'')
             @ '') deleted.''),
        delete_key (hdel_name s (fmt_opt (hget s i ''item_name''))) i)"
  by (simp add: delete_item_def Let_def)

lemma list_item_after_delete_key:
  "list_item (delete_key s i) i = (Inl (HTTPException 404 ''Item not found.''), delete_key s i)"
  by (simp add: list_item_def hexists_def delete_key_def)

text \<open>
  Claim C9. In a reachable store delete-item answers 404 exactly when no record exists
  for the id. When the record exists, the request succeeds with the message that spells
  out the id and the record's name, and it removes the record and the name's entry in
  the directory. In both cases a get-item for the same id afterwards answers 404.
\<close>

theorem delete_item_not_found_iff_absent:
  assumes "reachable s"
  shows "(fst (delete_item s i) = Inl (HTTPException 404 ''Item not found.'')
            \<longleftrightarrow> item_hash s i = Map.empty)
       \<and> (item_hash s i \<noteq> Map.empty \<longrightarrow>
            (\<exists>n s'. hget s i ''item_name'' = Some n \<and> hget_name s n = Some (str_of_int i)
               \<and> delete_item s i =
                   (Inr (''Item ('' @ str_of_int i @ '', '' @ n @ '') deleted.''), s')
               \<and> item_hash s' i = Map.empty \<and> hget_name s' n = None))
       \<and> fst (list_item (snd (delete_item s i)) i) = Inl (HTTPException 404 ''Item not found.'')"
proof -
  from assms have c: "consistent s" by (rule reachable_consistent)
  show ?thesis
  proof (cases "item_hash s i = Map.empty")
    case True
    then have "\<not> hexists s i ''item_id''" by (simp add: hexists_def)
    with True show ?thesis
      by (simp add: delete_item_absent list_item_def)
  next
    case False
    from consistent_record [OF c False] obtain n q0 where
      h: "hget_name s n = Some (str_of_int i)" and
      rec: "item_hash s i = [''item_id'' \<mapsto> str_of_int i, ''item_name'' \<mapsto> n,
                             ''quantity'' \<mapsto> str_of_int q0]"
      by blast
    have ex: "hexists s i ''item_id''" using rec by (simp add: hexists_def)
    have nm: "hget s i ''item_name'' = Some n" using rec by (simp add: hget_def)
    let ?s' = "delete_key (hdel_name s n) i"
    have d: "delete_item s i =
               (Inr (''Item ('' @ str_of_int i @ '', '' @ n @ '') deleted.''), ?s')"
      using delete_item_present [OF ex] nm by (simp add: fmt_opt_def)
    have 1: "item_hash ?s' i = Map.empty"
      by (simp add: delete_key_def)
    have 2: "hget_name ?s' n = None"
      by (simp add: hget_name_def delete_key_def hdel_name_def delete_conv)
    from False d nm h 1 2 show ?thesis
      by (simp add: list_item_after_delete_key)
  qed
qed

theorem delete_item_not_found_iff_absent_witness:
  "reachable apple5
   \<and> delete_item apple5 1 = (Inr ''Item (1, apple) deleted.'', snd (delete_item apple5 1))
   \<and> delete_item apple5 2 = (Inl (HTTPException 404 ''Item not found.''), apple5)
   \<and> item_hash apple5 2 = Map.empty
   \<and> fst (list_item (snd (delete_item apple5 1)) 1) = Inl (HTTPException 404 ''Item not found.'')"
proof -
  have a: "delete_item apple5 1 = (Inr ''Item (1, apple) deleted.'', snd (delete_item apple5 1))"
    by (simp add: apple5_eq eval_ops)
  have b: "delete_item apple5 2 = (Inl (HTTPException 404 ''Item not found.''), apple5)"
    by (simp add: apple5_eq eval_ops)
  from delete_item_not_found_iff_absent [OF reachable_apple5, of 1]
    delete_item_not_found_iff_absent [OF reachable_apple5, of 2] reachable_apple5 a b
  show ?thesis by simp
qed


lemma item_ids_delete_item: "item_ids (snd (delete_item s i)) = item_ids s"
  by (simp add: delete_item_def Let_def delete_key_def hdel_name_def)

lemma item_ids_remove_quantity: "item_ids (snd (remove_quantity s i qty)) = item_ids s"
  by (simp add: remove_quantity_def Let_def delete_key_def hdel_name_def hincrby_def
      split: option.splits)

lemma counter_value_cong: "item_ids s' = item_ids s \<Longrightarrow> counter_value s' = counter_value s"
  by (simp add: counter_value_def)

lemma counter_add_item_known:
  assumes c: "consistent s" and h: "hget_name s name = Some v"
  shows "item_ids (snd (add_item s name qty)) = item_ids s"
proof (cases "0 < qty")
  case False
  then show ?thesis by (simp add: add_item_def)
next
  case True
  from consistent_name_record [OF c h] obtain i q0 where
    "v = str_of_int i" "item_hash s i ''quantity'' = Some (str_of_int q0)"
    by fastforce
  with add_item_existing [OF True, of s name i q0] h show ?thesis by simp
qed

lemma issued_ids_bounds:
  assumes "consistent s" and "counter_value s = Some c"
  shows "sorted_wrt (<) (issued_ids s rs) \<and> (\<forall>j\<in>set (issued_ids s rs). c < j)"
  using assms
proof (induction rs arbitrary: s c)
  case Nil
  show ?case by simp
next
  case (Cons r rs)
  have c': "consistent (exec s r)"
    using Cons.prems(1)
    by (cases r)
      (simp_all add: consistent_add_item consistent_remove_quantity consistent_delete_item)
  show ?case
  proof (cases r)
    case (Remove i qty)
    have "counter_value (exec s r) = Some c"
      using Cons.prems(2) Remove
      by (simp add: counter_value_cong [OF item_ids_remove_quantity])
    from Cons.IH [OF c' this] Remove show ?thesis by simp
  next
    case (Delete i)
    have "counter_value (exec s r) = Some c"
      using Cons.prems(2) Delete
      by (simp add: counter_value_cong [OF item_ids_delete_item])
    from Cons.IH [OF c' this] Delete show ?thesis by simp
  next
    case (Add name qty)
    show ?thesis
    proof (cases "hget_name s name")
      case (Some v)
      have "counter_value (exec s r) = Some c"
        using Cons.prems Add Some
        by (simp add: counter_value_cong [OF counter_add_item_known])
      from Cons.IH [OF c' this] Add Some show ?thesis by simp
    next
      case None
      show ?thesis
      proof (cases "0 < qty")
        case False
        then have e: "add_item s name qty =
            (Inl (HTTPException 400 ''Quantity must be greater than 0.''), s)"
          by (simp add: add_item_def)
        then have "counter_value (exec s r) = Some c"
          using Cons.prems(2) Add by simp
        from Cons.IH [OF c' this] Add None e show ?thesis by simp
      next
        case True
        note new = add_item_new [OF True None Cons.prems(2)]
        show ?thesis
        proof (cases "int64 (c + 1)")
          case False
          with new have e: "add_item s name qty = (Inl ResponseError, s)"
            by simp
          then have "counter_value (exec s r) = Some c"
            using Cons.prems(2) Add by simp
          from Cons.IH [OF c' this] Add None e show ?thesis by simp
        next
          case fits: True
          have "counter_value (exec s r) = Some (c + 1)"
            using Add new fits by (simp add: counter_value_def redis_int_str_of_int)
          from Cons.IH [OF c' this]
          have "sorted_wrt (<) (issued_ids (exec s r) rs)"
            and "\<forall>j\<in>set (issued_ids (exec s r) rs). c + 1 < j"
            by simp_all
          moreover have "issued_ids s (r # rs) = (c + 1) # issued_ids (exec s r) rs"
            using Add None new fits by simp
          ultimately show ?thesis by auto
        qed
      qed
    qed
  qed
qed

text \<open>
  Claim C7. The ids handed out by the counter while any sequence of add-item,
  remove-quantity and delete-item requests is served from a reachable store are strictly
  increasing, and each is above the id of every record the store held before; delete-item
  leaves the counter as it finds it. Hence no id is issued twice, whatever is deleted in
  between.
\<close>

theorem issued_ids_strictly_increasing:
  assumes "reachable s"
  shows "sorted_wrt (<) (issued_ids s rs)
       \<and> (\<forall>j\<in>set (issued_ids s rs). \<forall>k. item_hash s k \<noteq> Map.empty \<longrightarrow> k < j)
       \<and> item_ids (snd (delete_item s i)) = item_ids s"
proof -
  from assms have c: "consistent s" by (rule reachable_consistent)
  then obtain n where n: "counter_value s = Some n"
    and le: "\<And>k. item_hash s k \<noteq> Map.empty \<Longrightarrow> k \<le> n"
    unfolding consistent_def by blast
  from issued_ids_bounds [OF c n, of rs] le show ?thesis
    by (fastforce simp: item_ids_delete_item)
qed

theorem issued_ids_strictly_increasing_witness:
  "reachable empty_store
   \<and> issued_ids empty_store
       [Add ''apple'' 5, Delete 1, Add ''pear'' 2, Remove 2 2, Add ''apple'' 1] = [1, 2, 3]
   \<and> sorted_wrt (<) (issued_ids empty_store
       [Add ''apple'' 5, Delete 1, Add ''pear'' 2, Remove 2 2, Add ''apple'' 1])
   \<and> item_ids (snd (delete_item apple5 1)) = item_ids apple5"
proof -
  have "issued_ids empty_store
       [Add ''apple'' 5, Delete 1, Add ''pear'' 2, Remove 2 2, Add ''apple'' 1] = [1, 2, 3]"
    by code_simp
  with issued_ids_strictly_increasing [OF reachable.start,
      of "[Add ''apple'' 5, Delete 1, Add ''pear'' 2, Remove 2 2, Add ''apple'' 1]"]
    issued_ids_strictly_increasing [OF reachable_apple5, of "[]" 1]
    reachable.start
  show ?thesis by simp
qed









lemma apple_max_eq:
  "apple_max =
     \<lparr>item_ids = Some ''1'', item_name_to_id = [(''apple'', ''1'')],
      item_hash = (\<lambda>_. Map.empty)
        (1 := [''item_id'' \<mapsto> ''1'', ''item_name'' \<mapsto> ''apple'',
               ''quantity'' \<mapsto> str_of_int 9223372036854775807])\<rparr>"
  by (simp add: apple_max_def eval_ops)

lemma apple_big_eq:
  "apple_big =
     \<lparr>item_ids = Some ''1'', item_name_to_id = [(''apple'', ''1'')],
      item_hash = (\<lambda>_. Map.empty)
        (1 := [''item_id'' \<mapsto> ''1'', ''item_name'' \<mapsto> ''apple'',
               ''quantity'' \<mapsto> str_of_int 9223372036854775808])\<rparr>"
  by (simp add: apple_big_def eval_ops)

lemma str_of_int_one: "str_of_int 1 = ''1''"
  by (simp add: str_of_int_digit digit_char_def)

lemma str_of_int_big: "str_of_int 9223372036854775808 = ''9223372036854775808''"
  by (simp add: str_of_int_def str_of_nat.simps digit_char_def)

section \<open>Requests that reach the store's arithmetic\<close>

text \<open>
  Claim C5, as stated, fails: after \<^verbatim>\<open>POST /items/apple/9223372036854775808\<close> the
  record holds a quantity the store cannot compute with, and
  \<^verbatim>\<open>DELETE /items/1/1\<close>, whose amount is below that quantity, is answered with the
  store's error while the record keeps its quantity.
\<close>

theorem remove_quantity_decrements_counterexample:
  "hexists apple_big 1 ''item_id''
   \<and> hget apple_big 1 ''quantity'' = Some ''9223372036854775808''
   \<and> int_of_str ''9223372036854775808'' = Some 9223372036854775808
   \<and> (1::int) < 9223372036854775808
   \<and> remove_quantity apple_big 1 1 = (Inl ResponseError, apple_big)"
proof -
  have 1: "hexists apple_big 1 ''item_id''"
    by (simp add: apple_big_eq hexists_def)
  have 2: "hget apple_big 1 ''quantity'' = Some (str_of_int 9223372036854775808)"
    by (simp add: apple_big_eq hget_def)
  have 3: "(1::int) < 9223372036854775808" by simp
  have 4: "int_of_str ''9223372036854775808'' = Some 9223372036854775808"
    using int_of_str_str_of_int [of 9223372036854775808] by (simp add: str_of_int_big)
  from remove_quantity_some [OF 1 2 3] 1 2 4 show ?thesis
    by (simp add: int64_def str_of_int_big)
qed

text \<open>
  Claim C5, amended. When the record of id \<open>i\<close> exists and holds quantity \<open>c\<close>,
  remove-quantity with an amount below \<open>c\<close> succeeds, the record is still there and
  holds exactly \<open>c - amount\<close>, its other fields and the directory being as before,
  provided \<open>c\<close>, \<open>- amount\<close> and \<open>c - amount\<close> are 64-bit integers. Otherwise the
  store refuses the increment: the request fails with the store's error and the store is
  left as it was.
\<close>

theorem remove_quantity_decrements:
  assumes "hexists s i ''item_id''" and "hget s i ''quantity'' = Some (str_of_int c)"
    and "amount < c"
  shows "(int64 c \<and> int64 (- amount) \<and> int64 (c - amount) \<longrightarrow>
            (\<exists>msg s'. remove_quantity s i amount = (Inr msg, s')
               \<and> hexists s' i ''item_id''
               \<and> hget s' i ''quantity'' = Some (str_of_int (c - amount))
               \<and> fst (list_item s' i) =
                   Inr ((hgetall s i)(''quantity'' \<mapsto> str_of_int (c - amount)))
               \<and> item_name_to_id s' = item_name_to_id s))
       \<and> (\<not> (int64 c \<and> int64 (- amount) \<and> int64 (c - amount)) \<longrightarrow>
            remove_quantity s i amount = (Inl ResponseError, s))"
proof (cases "int64 c \<and> int64 (- amount) \<and> int64 (c - amount)")
  case True
  with remove_quantity_some [OF assms] assms(1) show ?thesis
    by (auto simp: hexists_def hget_def list_item_def hgetall_def)
next
  case False
  with remove_quantity_some [OF assms] show ?thesis
    by auto
qed

theorem remove_quantity_decrements_witness:
  "hexists apple5 1 ''item_id'' \<and> hget apple5 1 ''quantity'' = Some (str_of_int 5) \<and> (2::int) < 5
   \<and> int64 5 \<and> int64 (- 2) \<and> int64 (5 - 2)
   \<and> (\<exists>msg s'. remove_quantity apple5 1 2 = (Inr msg, s')
           \<and> hexists s' 1 ''item_id''
           \<and> hget s' 1 ''quantity'' = Some (str_of_int (5 - 2))
           \<and> fst (list_item s' 1) = Inr ((hgetall apple5 1)(''quantity'' \<mapsto> str_of_int (5 - 2)))
           \<and> item_name_to_id s' = item_name_to_id apple5)
   \<and> \<not> int64 (- (- 9223372036854775808))
   \<and> remove_quantity apple5 1 (- 9223372036854775808) = (Inl ResponseError, apple5)"
proof -
  have 1: "hexists apple5 1 ''item_id''"
    by (simp add: apple5_eq hexists_def)
  have 2: "hget apple5 1 ''quantity'' = Some (str_of_int 5)"
    by (simp add: apple5_eq hget_def str_of_int_digit digit_char_def)
  have 3: "(2::int) < 5" by simp
  have 4: "(- 9223372036854775808 :: int) < 5" by simp
  have r: "int64 5 \<and> int64 (- 2) \<and> int64 (5 - 2)" "\<not> int64 (- (- 9223372036854775808))"
    by (simp_all add: int64_def)
  from remove_quantity_decrements [OF 1 2 3] remove_quantity_decrements [OF 1 2 4] 1 2 r
  show ?thesis by simp
qed

text \<open>
  Claim C10, as stated, fails: on the record holding 5, the negative amount
  \<open>- 9223372036854775808\<close> is not accepted; its negation is no 64-bit integer, the
  store refuses the increment, and the request fails with the store's error while the
  record keeps its quantity.
\<close>

theorem remove_quantity_negative_amount_counterexample:
  "hexists apple5 1 ''item_id'' \<and> hget apple5 1 ''quantity'' = Some ''5''
   \<and> int_of_str ''5'' = Some 5 \<and> (0::int) < 5 \<and> (- 9223372036854775808 :: int) < 0
   \<and> remove_quantity apple5 1 (- 9223372036854775808) = (Inl ResponseError, apple5)"
proof -
  have 1: "hexists apple5 1 ''item_id''"
    by (simp add: apple5_eq hexists_def)
  have 2: "hget apple5 1 ''quantity'' = Some (str_of_int 5)"
    by (simp add: apple5_eq hget_def str_of_int_digit digit_char_def)
  have 3: "(- 9223372036854775808 :: int) < 5" by simp
  have 4: "str_of_int 5 = ''5''"
    by (simp add: str_of_int_digit digit_char_def)
  have 5: "int_of_str ''5'' = Some 5"
    by (simp add: int_of_str_def digit_of_def)
  from remove_quantity_some [OF 1 2 3] 1 2 4 5 show ?thesis
    by (simp add: int64_def)
qed

text \<open>
  Claim C10, amended. The amount of remove-quantity is not validated: on an existing
  record with quantity \<open>c > 0\<close>, a negative amount is accepted, the request succeeds and
  the stored quantity grows to \<open>c + \<bar>amount\<bar>\<close>, provided that sum is at most the
  largest 64-bit integer. When the sum is larger the store refuses the increment: the
  request fails with the store's error and the store is left as it was.
\<close>

theorem remove_quantity_negative_amount:
  assumes "hexists s i ''item_id''" and "hget s i ''quantity'' = Some (str_of_int c)"
    and "0 < c" and "amount < 0"
  shows "(c + \<bar>amount\<bar> \<le> 9223372036854775807 \<longrightarrow>
            (\<exists>msg s'. remove_quantity s i amount = (Inr msg, s')
               \<and> hget s' i ''quantity'' = Some (str_of_int (c + \<bar>amount\<bar>))
               \<and> c < c + \<bar>amount\<bar>))
       \<and> (9223372036854775807 < c + \<bar>amount\<bar> \<longrightarrow>
            remove_quantity s i amount = (Inl ResponseError, s))"
proof -
  from assms have lt: "amount < c" by simp
  have "int64 c \<and> int64 (- amount) \<and> int64 (c - amount)
          \<longleftrightarrow> c + \<bar>amount\<bar> \<le> 9223372036854775807"
    using assms(3,4) by (auto simp: int64_def)
  with remove_quantity_some [OF assms(1,2) lt] assms(4) show ?thesis
    by (auto simp: hget_def)
qed

theorem remove_quantity_negative_amount_witness:
  "hexists apple5 1 ''item_id'' \<and> hget apple5 1 ''quantity'' = Some (str_of_int 5)
   \<and> (0::int) < 5 \<and> (- 3 :: int) < 0 \<and> (5::int) + \<bar>- 3\<bar> \<le> 9223372036854775807
   \<and> (\<exists>msg s'. remove_quantity apple5 1 (- 3) = (Inr msg, s')
           \<and> hget s' 1 ''quantity'' = Some (str_of_int (5 + \<bar>- 3\<bar>))
           \<and> (5::int) < 5 + \<bar>- 3\<bar>)
   \<and> (9223372036854775807::int) < 5 + \<bar>- 9223372036854775807\<bar>
   \<and> remove_quantity apple5 1 (- 9223372036854775807) = (Inl ResponseError, apple5)"
proof -
  have 1: "hexists apple5 1 ''item_id''"
    by (simp add: apple5_eq hexists_def)
  have 2: "hget apple5 1 ''quantity'' = Some (str_of_int 5)"
    by (simp add: apple5_eq hget_def str_of_int_digit digit_char_def)
  from remove_quantity_negative_amount [OF 1 2, of "- 3"]
    remove_quantity_negative_amount [OF 1 2, of "- 9223372036854775807"] 1 2
  show ?thesis by simp
qed


lemma filter_update_fresh:
  "map_of al k = None \<Longrightarrow> filter (\<lambda>e. fst e = k) (AList.update k v al) = [(k, v)]"
  by (induction al) (auto split: if_splits)

lemma add_item_new_reachable:
  assumes c: "consistent s" and h: "hget_name s name = None" and q: "0 < qty"
    and room: "\<forall>k. counter_value s = Some k \<longrightarrow> k < 9223372036854775807"
  shows "\<exists>k. counter_value s = Some k \<and> item_hash s (k + 1) = Map.empty
           \<and> add_item s name qty =
               (Inr \<lparr>item_id = k + 1, item_name = name, quantity = qty\<rparr>,
                s\<lparr>item_ids := Some (str_of_int (k + 1)),
                  item_hash := (item_hash s)(k + 1 :=
                     [''item_id'' \<mapsto> str_of_int (k + 1), ''item_name'' \<mapsto> name,
                      ''quantity'' \<mapsto> str_of_int qty]),
                  item_name_to_id :=
                    AList.update name (str_of_int (k + 1)) (item_name_to_id s)\<rparr>)"
proof -
  from c obtain k where k: "counter_value s = Some k" and k0: "0 \<le> k"
    and bound: "\<And>j. item_hash s j \<noteq> Map.empty \<Longrightarrow> j \<le> k"
    unfolding consistent_def by blast
  have fresh: "item_hash s (k + 1) = Map.empty"
    using bound [of "k + 1"] by auto
  from room k k0 have "int64 (k + 1)"
    by (simp add: int64_def)
  with add_item_new [OF q h k] k fresh show ?thesis by simp
qed

text \<open>
  Claim C2, as stated, fails in two ways. For a name the store already knows, the record
  holds more than the sum of the two quantities: on the store with 5 apples, adding 1 and
  then 2 leaves 8. For a new name, the second request can exceed the store's arithmetic:
  after adding 9223372036854775807 apples to the empty store, adding 1 is answered with
  the store's error.
\<close>

theorem add_item_twice_sums_counterexample:
  "hget_name apple5 ''apple'' = Some ''1''
   \<and> fst (add_item apple5 ''apple'' 1) =
       Inr \<lparr>item_id = 1, item_name = ''apple'', quantity = 1\<rparr>
   \<and> fst (add_item (snd (add_item apple5 ''apple'' 1)) ''apple'' 2) =
       Inr \<lparr>item_id = 1, item_name = ''apple'', quantity = 2\<rparr>
   \<and> hget (snd (add_item (snd (add_item apple5 ''apple'' 1)) ''apple'' 2)) 1 ''quantity''
       = Some ''8''
   \<and> int_of_str ''8'' \<noteq> Some (1 + 2)
   \<and> hget_name empty_store ''apple'' = None
   \<and> add_item empty_store ''apple'' 9223372036854775807 =
       (Inr \<lparr>item_id = 1, item_name = ''apple'', quantity = 9223372036854775807\<rparr>,
        apple_max)
   \<and> add_item apple_max ''apple'' 1 = (Inl ResponseError, apple_max)"
proof -
  have a: "hget_name apple5 ''apple'' = Some ''1''"
    "fst (add_item apple5 ''apple'' 1) =
       Inr \<lparr>item_id = 1, item_name = ''apple'', quantity = 1\<rparr>"
    "fst (add_item (snd (add_item apple5 ''apple'' 1)) ''apple'' 2) =
       Inr \<lparr>item_id = 1, item_name = ''apple'', quantity = 2\<rparr>"
    "hget (snd (add_item (snd (add_item apple5 ''apple'' 1)) ''apple'' 2)) 1 ''quantity''
       = Some ''8''"
    "int_of_str ''8'' \<noteq> Some (1 + 2)"
    by (simp_all add: apple5_eq eval_ops)
  have b: "hget_name empty_store ''apple'' = None"
    by (simp add: empty_store_def hget_name_def)
  have c: "add_item empty_store ''apple'' 9223372036854775807 =
       (Inr \<lparr>item_id = 1, item_name = ''apple'', quantity = 9223372036854775807\<rparr>,
        apple_max)"
    by (simp add: apple_max_eq eval_ops)
  have h: "hget_name apple_max ''apple'' = Some (str_of_int 1)"
    by (simp add: apple_max_eq hget_name_def str_of_int_one)
  have q: "item_hash apple_max 1 ''quantity'' = Some (str_of_int 9223372036854775807)"
    by (simp add: apple_max_eq)
  have d: "add_item apple_max ''apple'' 1 = (Inl ResponseError, apple_max)"
    using add_item_existing [OF _ h q, of 1] by (simp add: int64_def)
  from a b c d show ?thesis by simp
qed

text \<open>
  Claim C2, amended. In a reachable store that does not know the name yet and whose
  counter is below the largest 64-bit integer, two add-item requests for that name with
  positive quantities \<open>q1\<close> and \<open>q2\<close> whose sum is at most the largest 64-bit integer
  both succeed and answer with the same id; afterwards the directory has one entry for
  the name, exactly one record carries the name, and that record holds \<open>q1 + q2\<close>.
\<close>

theorem add_item_twice_sums:
  assumes "reachable s" and "hget_name s name = None" and "0 < q1" and "0 < q2"
    and "\<forall>k. counter_value s = Some k \<longrightarrow> k < 9223372036854775807"
    and "q1 + q2 \<le> 9223372036854775807"
  shows "\<exists>i s1 s2.
           add_item s name q1 = (Inr \<lparr>item_id = i, item_name = name, quantity = q1\<rparr>, s1)
         \<and> add_item s1 name q2 = (Inr \<lparr>item_id = i, item_name = name, quantity = q2\<rparr>, s2)
         \<and> hget_name s1 name = Some (str_of_int i)
         \<and> hget_name s2 name = Some (str_of_int i)
         \<and> (\<forall>j. hget s2 j ''item_name'' = Some name \<longleftrightarrow> j = i)
         \<and> filter (\<lambda>e. fst e = name) (item_name_to_id s2) = [(name, str_of_int i)]
         \<and> hget s2 i ''quantity'' = Some (str_of_int (q1 + q2))"
proof -
  from assms(1) have c: "consistent s" by (rule reachable_consistent)
  from add_item_new_reachable [OF c assms(2,3,5)] obtain k s1 where
    fresh: "item_hash s (k + 1) = Map.empty" and
    s1: "s1 = s\<lparr>item_ids := Some (str_of_int (k + 1)),
                  item_hash := (item_hash s)(k + 1 :=
                     [''item_id'' \<mapsto> str_of_int (k + 1), ''item_name'' \<mapsto> name,
                      ''quantity'' \<mapsto> str_of_int q1]),
                  item_name_to_id :=
                    AList.update name (str_of_int (k + 1)) (item_name_to_id s)\<rparr>" and
    a1: "add_item s name q1 =
           (Inr \<lparr>item_id = k + 1, item_name = name, quantity = q1\<rparr>, s1)"
    by blast
  have h1: "hget_name s1 name = Some (str_of_int (k + 1))"
    by (simp add: s1 hget_name_def update_conv)
  have r1: "item_hash s1 (k + 1) ''quantity'' = Some (str_of_int q1)"
    by (simp add: s1)
  define s2 where
    "s2 = s1\<lparr>item_hash := (item_hash s1)(k + 1 :=
                (item_hash s1 (k + 1))(''quantity'' \<mapsto> str_of_int (q1 + q2)))\<rparr>"
  have fits: "int64 q2 \<and> int64 q1 \<and> int64 (q1 + q2)"
    using assms(3,4,6) by (simp add: int64_def)
  have a2: "add_item s1 name q2 =
              (Inr \<lparr>item_id = k + 1, item_name = name, quantity = q2\<rparr>, s2)"
    unfolding s2_def using add_item_existing [OF assms(4) h1 r1] fits by simp
  have h2: "hget_name s2 name = Some (str_of_int (k + 1))"
    using h1 by (simp add: s2_def hget_name_def)
  have one: "\<forall>j. hget s2 j ''item_name'' = Some name \<longleftrightarrow> j = k + 1"
  proof (intro allI iffI)
    fix j assume j: "hget s2 j ''item_name'' = Some name"
    show "j = k + 1"
    proof (rule ccontr)
      assume ne: "j \<noteq> k + 1"
      with j have nm: "item_hash s j ''item_name'' = Some name"
        by (simp add: s2_def s1 hget_def)
      then have "item_hash s j \<noteq> Map.empty" by auto
      from consistent_record [OF c this] nm have "hget_name s name = Some (str_of_int j)"
        by auto
      with assms(2) show False by simp
    qed
  next
    fix j assume "j = k + 1"
    then show "hget s2 j ''item_name'' = Some name"
      by (simp add: s2_def s1 hget_def)
  qed
  have dir: "filter (\<lambda>e. fst e = name) (item_name_to_id s2) = [(name, str_of_int (k + 1))]"
    using assms(2) by (simp add: s2_def s1 hget_name_def filter_update_fresh)
  have qty: "hget s2 (k + 1) ''quantity'' = Some (str_of_int (q1 + q2))"
    by (simp add: s2_def hget_def)
  from a1 a2 h1 h2 one dir qty show ?thesis by blast
qed

theorem add_item_twice_sums_witness:
  "reachable empty_store \<and> hget_name empty_store ''apple'' = None \<and> (0::int) < 5 \<and> (0::int) < 3
   \<and> counter_value empty_store = Some 0 \<and> (0::int) < 9223372036854775807
   \<and> (5::int) + 3 \<le> 9223372036854775807
   \<and> add_item empty_store ''apple'' 5 =
        (Inr \<lparr>item_id = 1, item_name = ''apple'', quantity = 5\<rparr>, apple5)
   \<and> (\<exists>i s1 s2.
           add_item empty_store ''apple'' 5 =
             (Inr \<lparr>item_id = i, item_name = ''apple'', quantity = 5\<rparr>, s1)
         \<and> add_item s1 ''apple'' 3 = (Inr \<lparr>item_id = i, item_name = ''apple'', quantity = 3\<rparr>, s2)
         \<and> hget_name s1 ''apple'' = Some (str_of_int i)
         \<and> hget_name s2 ''apple'' = Some (str_of_int i)
         \<and> (\<forall>j. hget s2 j ''item_name'' = Some ''apple'' \<longleftrightarrow> j = i)
         \<and> filter (\<lambda>e. fst e = ''apple'') (item_name_to_id s2) = [(''apple'', str_of_int i)]
         \<and> hget s2 i ''quantity'' = Some (str_of_int (5 + 3)))"
proof -
  have h: "hget_name empty_store ''apple'' = None"
    by (simp add: empty_store_def hget_name_def)
  have k: "counter_value empty_store = Some 0"
    by (simp add: empty_store_def counter_value_def)
  then have room: "\<forall>k. counter_value empty_store = Some k \<longrightarrow> k < 9223372036854775807"
    by simp
  have a: "add_item empty_store ''apple'' 5 =
        (Inr \<lparr>item_id = 1, item_name = ''apple'', quantity = 5\<rparr>, apple5)"
    by (simp add: apple5_eq eval_ops)
  have p: "(0::int) < 5" "(0::int) < 3" "(5::int) + 3 \<le> 9223372036854775807"
    by simp_all
  from add_item_twice_sums [OF reachable.start h p(1,2) room p(3)] reachable.start h k a
  show ?thesis by simp
qed

text \<open>
  Claim C1, as stated, fails: after \<^verbatim>\<open>POST /items/apple/5\<close> the request
  \<^verbatim>\<open>POST /items/apple/3\<close> answers with quantity 3 while the record holds 8.
\<close>

theorem add_item_response_counterexample:
  "fst (add_item apple5 ''apple'' 3) = Inr \<lparr>item_id = 1, item_name = ''apple'', quantity = 3\<rparr>
   \<and> hget (snd (add_item apple5 ''apple'' 3)) 1 ''quantity'' = Some ''8''
   \<and> int_of_str ''8'' \<noteq> Some 3"
  by (simp add: apple5_eq eval_ops)

text \<open>
  Claim C1, amended. In a reachable store an add-item request with a positive quantity
  succeeds and answers with the id the name resolves to afterwards, the name, and the
  quantity of the request, provided the store's arithmetic has room: for a new name the
  counter is below the largest 64-bit integer, for a known name whose record holds \<open>c\<close>
  the sum \<open>c + qty\<close> is at most the largest 64-bit integer. The record then holds the
  quantity of the request when the name was new, and \<open>c + qty\<close> when it was known.
\<close>

theorem add_item_response_echoes_request:
  assumes "reachable s" and "0 < qty"
    and "hget_name s name = None \<longrightarrow>
           (\<forall>k. counter_value s = Some k \<longrightarrow> k < 9223372036854775807)"
    and "\<forall>i c. hget_name s name = Some (str_of_int i)
                 \<and> hget s i ''quantity'' = Some (str_of_int c)
               \<longrightarrow> c + qty \<le> 9223372036854775807"
  shows "\<exists>i s'. add_item s name qty =
                  (Inr \<lparr>item_id = i, item_name = name, quantity = qty\<rparr>, s')
           \<and> hget_name s' name = Some (str_of_int i)
           \<and> hget s' i ''item_name'' = Some name
           \<and> (hget_name s name = None \<longrightarrow>
                hget s' i ''quantity'' = Some (str_of_int qty))
           \<and> (hget_name s name \<noteq> None \<longrightarrow>
                (\<exists>c. 0 < c \<and> hget s i ''quantity'' = Some (str_of_int c)
                   \<and> hget s' i ''quantity'' = Some (str_of_int (c + qty))))"
proof -
  from assms(1) have c: "consistent s" by (rule reachable_consistent)
  show ?thesis
  proof (cases "hget_name s name")
    case None
    with assms(3) have room: "\<forall>k. counter_value s = Some k \<longrightarrow> k < 9223372036854775807"
      by simp
    from add_item_new_reachable [OF c None assms(2) room] obtain k where
      "add_item s name qty =
               (Inr \<lparr>item_id = k + 1, item_name = name, quantity = qty\<rparr>,
                s\<lparr>item_ids := Some (str_of_int (k + 1)),
                  item_hash := (item_hash s)(k + 1 :=
                     [''item_id'' \<mapsto> str_of_int (k + 1), ''item_name'' \<mapsto> name,
                      ''quantity'' \<mapsto> str_of_int qty]),
                  item_name_to_id :=
                    AList.update name (str_of_int (k + 1)) (item_name_to_id s)\<rparr>)"
      by blast
    with None show ?thesis
      by (simp add: hget_name_def hget_def update_conv)
  next
    case (Some v)
    from consistent_name_record [OF c Some] obtain i q0 where
      v: "v = str_of_int i" and q0: "0 < q0" and
      rec: "item_hash s i = [''item_id'' \<mapsto> str_of_int i, ''item_name'' \<mapsto> name,
                             ''quantity'' \<mapsto> str_of_int q0]"
      by blast
    have hq: "item_hash s i ''quantity'' = Some (str_of_int q0)"
      using rec by simp
    have hs: "hget_name s name = Some (str_of_int i)"
      using Some v by simp
    from assms(4) hs hq have "q0 + qty \<le> 9223372036854775807"
      by (simp add: hget_def)
    with q0 assms(2) have fits: "int64 qty \<and> int64 q0 \<and> int64 (q0 + qty)"
      by (simp add: int64_def)
    from add_item_existing [OF assms(2) hs hq] fits hs hq q0 rec show ?thesis
      by (auto simp: hget_name_def hget_def)
  qed
qed

theorem add_item_response_echoes_request_witness:
  "reachable apple5 \<and> (0::int) < 3 \<and> hget_name apple5 ''apple'' = Some (str_of_int 1)
   \<and> hget apple5 1 ''quantity'' = Some (str_of_int 5) \<and> (5::int) + 3 \<le> 9223372036854775807
   \<and> (\<exists>i s'. add_item apple5 ''apple'' 3 =
                  (Inr \<lparr>item_id = i, item_name = ''apple'', quantity = 3\<rparr>, s')
           \<and> hget_name s' ''apple'' = Some (str_of_int i)
           \<and> hget s' i ''item_name'' = Some ''apple''
           \<and> (\<exists>c. 0 < c \<and> hget apple5 i ''quantity'' = Some (str_of_int c)
                   \<and> hget s' i ''quantity'' = Some (str_of_int (c + 3))))
   \<and> hget_name empty_store ''pear'' = None
   \<and> counter_value empty_store = Some 0 \<and> (0::int) < 9223372036854775807
   \<and> (\<exists>i s'. add_item empty_store ''pear'' 3 =
                  (Inr \<lparr>item_id = i, item_name = ''pear'', quantity = 3\<rparr>, s')
           \<and> hget s' i ''quantity'' = Some (str_of_int 3))"
proof -
  have h: "hget_name apple5 ''apple'' = Some (str_of_int 1)"
    by (simp add: apple5_eq hget_name_def str_of_int_one)
  have q: "hget apple5 1 ''quantity'' = Some (str_of_int 5)"
    by (simp add: apple5_eq hget_def str_of_int_digit digit_char_def)
  have a3: "hget_name apple5 ''apple'' = None \<longrightarrow>
           (\<forall>k. counter_value apple5 = Some k \<longrightarrow> k < 9223372036854775807)"
    using h by simp
  have a4: "\<forall>i c. hget_name apple5 ''apple'' = Some (str_of_int i)
                 \<and> hget apple5 i ''quantity'' = Some (str_of_int c)
               \<longrightarrow> c + 3 \<le> 9223372036854775807"
    using h q by (auto simp: str_of_int_inject)
  have e: "hget_name empty_store ''pear'' = None"
    by (simp add: empty_store_def hget_name_def)
  have k: "counter_value empty_store = Some 0"
    by (simp add: empty_store_def counter_value_def)
  then have room: "\<forall>k. counter_value empty_store = Some k \<longrightarrow> k < 9223372036854775807"
    by simp
  have b3: "hget_name empty_store ''pear'' = None \<longrightarrow>
           (\<forall>k. counter_value empty_store = Some k \<longrightarrow> k < 9223372036854775807)"
    using room by simp
  have b4: "\<forall>i c. hget_name empty_store ''pear'' = Some (str_of_int i)
                 \<and> hget empty_store i ''quantity'' = Some (str_of_int c)
               \<longrightarrow> c + 3 \<le> 9223372036854775807"
    using e by simp
  have p: "(0::int) < 3" by simp
  from add_item_response_echoes_request [OF reachable_apple5 p a3 a4]
    add_item_response_echoes_request [OF reachable.start p b3 b4]
    reachable_apple5 h q e k
  show ?thesis by (auto simp: str_of_int_inject)
qed

end
